theory Spec2Isabelle
  imports Complex_Main "HOL-Library.AList" "HOL-Library.Char_ord"
    "HOL-Library.List_Lexorder" "HOL-Library.Product_Lexorder"
begin

section \<open>The Gisquick publishing plugin: layers, scales and resolutions\<close>

text \<open>
  The development follows \<^verbatim>\<open>webgisplugin.py\<close>. Objects of the host application are
  records of the values the plugin reads from them; exceptions are values of type
  \<open>error\<close>; Decimal, float and int values are modelled by their exact numeric value
  (\<open>rat\<close>, \<open>int\<close>), which is what Python's comparison, hashing and set membership
  of numbers go by.
\<close>

subsection \<open>Host objects and errors\<close>

datatype error = KeyError | ValueError | OSError | JSONDecodeError

text \<open>\<^verbatim>\<open>QgsMapLayer.LayerType\<close>: the plugin tests for the first two values only.\<close>

datatype layer_type = VectorLayer | RasterLayer | PluginLayer | MeshLayer

text \<open>
  A map layer, as far as the plugin looks at it: \<^verbatim>\<open>layer.id()\<close>, \<^verbatim>\<open>layer.type()\<close>,
  \<^verbatim>\<open>layer.providerType()\<close>, the scale visibility settings and
  \<^verbatim>\<open>layer.dataProvider().property('resolutions')\<close> (\<open>None\<close> when the provider has no
  such property).
\<close>

record 'p layer =
  layer_id :: string
  ltype :: layer_type
  providerType :: string
  hasScaleBasedVisibility :: bool
  maximumScale :: rat
  minimumScale :: rat
  resolutions_property :: "'p list option"

text \<open>
  The functions the plugin imports from its sibling module \<^verbatim>\<open>utils\<close> and the builtin
  \<^verbatim>\<open>int\<close> on strings. They are parameters of the model.

  Modelled from the spec: \<^verbatim>\<open>utils.scales_to_resolutions\<close>,
  \<^verbatim>\<open>utils.resolutions_to_scales\<close> and \<^verbatim>\<open>utils.to_decimal_array\<close> are not part of the
  sources at hand; they are "arithmetic helpers converting between cartographic scale
  ratios and tile pixel resolutions, parameterized by map unit", so each converts its
  argument element by element, by a function of the unit name and the element.
\<close>

record 'p externals =
  scale_to_resolution :: "string \<Rightarrow> rat \<Rightarrow> rat"
  resolution_to_scale :: "string \<Rightarrow> rat \<Rightarrow> int"
  to_decimal :: "'p \<Rightarrow> rat"
  py_int :: "string \<Rightarrow> int option"

subsection \<open>Layer predicates\<close>

definition is_overlay_layer_for_publish :: "('p, 'x) layer_scheme \<Rightarrow> bool" where
  "is_overlay_layer_for_publish layer =
     (ltype layer = VectorLayer \<or>
      (ltype layer = RasterLayer \<and> providerType layer \<noteq> ''wms''))"

definition is_base_layer_for_publish :: "('p, 'x) layer_scheme \<Rightarrow> bool" where
  "is_base_layer_for_publish layer =
     (ltype layer = RasterLayer \<and> providerType layer = ''wms'')"

subsection \<open>Map units and conversions\<close>

text \<open>
  \<^verbatim>\<open>map_units\<close> looks the canvas' unit code up in a dictionary literal; a code that
  is not a key raises \<^verbatim>\<open>KeyError\<close>.
\<close>

definition map_units :: "int \<Rightarrow> error + string" where
  "map_units code =
     (if code = 0 then Inr ''meters''
      else if code = 1 then Inr ''feet''
      else if code = 2 then Inr ''degrees''
      else if code = 3 then Inr ''unknown''
      else if code = 7 then Inr ''miles''
      else Inl KeyError)"

definition scales_to_resolutions ::
  "('p, 'y) externals_scheme \<Rightarrow> int \<Rightarrow> rat list \<Rightarrow> error + rat list" where
  "scales_to_resolutions ext code scales =
     (case map_units code of
        Inl e \<Rightarrow> Inl e
      | Inr units \<Rightarrow> Inr (map (scale_to_resolution ext units) scales))"

definition resolutions_to_scales ::
  "('p, 'y) externals_scheme \<Rightarrow> int \<Rightarrow> rat list \<Rightarrow> error + int list" where
  "resolutions_to_scales ext code resolutions =
     (case map_units code of
        Inl e \<Rightarrow> Inl e
      | Inr units \<Rightarrow> Inr (map (resolution_to_scale ext units) resolutions))"

text \<open>
  \<^verbatim>\<open>filter_visible_resolutions\<close>: the two scales are converted in one call, whose
  result is unpacked into two names (a result of another length raises
  \<^verbatim>\<open>ValueError\<close>), and the list comprehension keeps the input order.
\<close>

definition filter_visible_resolutions ::
  "('p, 'y) externals_scheme \<Rightarrow> int \<Rightarrow> rat list \<Rightarrow> ('p, 'x) layer_scheme
     \<Rightarrow> error + rat list" where
  "filter_visible_resolutions ext code resolutions layer =
     (if hasScaleBasedVisibility layer then
        (let max_scale_exclusive = maximumScale layer;
             min_scale_inclusive = minimumScale layer
         in case scales_to_resolutions ext code
                   [max_scale_exclusive, min_scale_inclusive] of
              Inl e \<Rightarrow> Inl e
            | Inr [max_res_exclusive, min_res_inclusive] \<Rightarrow>
                Inr (filter (\<lambda>res. res \<ge> min_res_inclusive \<and> res < max_res_exclusive)
                       resolutions)
            | Inr _ \<Rightarrow> Inl ValueError)
      else Inr resolutions)"

text \<open>
  Modelled from the spec: the bodies of \<^verbatim>\<open>utils.scales_to_resolutions\<close> and
  \<^verbatim>\<open>utils.resolutions_to_scales\<close> are missing. The glossary defines a resolution as
  the "ground distance per pixel at a fixed DPI" of a scale ratio: at scale \<open>1:s\<close> a
  pixel, \<open>1/DPI\<close> inch on the screen, covers \<open>s/DPI\<close> inches on the ground, that is
  \<open>s / (DPI * k)\<close> map units when a map unit is \<open>k\<close> inches long. The inches per unit
  are a parameter; scales are integers, as the docstrings of the plugin's wrappers
  say, so the way back rounds to the nearest integer. Arithmetic is exact.
\<close>

definition DPI :: rat where
  "DPI = 96"

definition spec_scale_to_resolution :: "(string \<Rightarrow> rat) \<Rightarrow> string \<Rightarrow> rat \<Rightarrow> rat" where
  "spec_scale_to_resolution inches_per_unit units scale =
     scale / (DPI * inches_per_unit units)"

definition spec_resolution_to_scale :: "(string \<Rightarrow> rat) \<Rightarrow> string \<Rightarrow> rat \<Rightarrow> int" where
  "spec_resolution_to_scale inches_per_unit units resolution =
     round (resolution * inches_per_unit units * DPI)"

definition spec_utils :: "(string \<Rightarrow> rat) \<Rightarrow> 'p externals" where
  "spec_utils inches_per_unit =
     \<lparr> scale_to_resolution = spec_scale_to_resolution inches_per_unit,
       resolution_to_scale = spec_resolution_to_scale inches_per_unit,
       to_decimal = (\<lambda>_. 0),
       py_int = (\<lambda>_. None) \<rparr>"

text \<open>The round trip of the claim: scales to resolutions, and the result back to scales.\<close>

definition scales_round_trip ::
  "('p, 'y) externals_scheme \<Rightarrow> int \<Rightarrow> int list \<Rightarrow> error + int list" where
  "scales_round_trip ext code scales =
     (case scales_to_resolutions ext code (map of_int scales) of
        Inl e \<Rightarrow> Inl e
      | Inr resolutions \<Rightarrow> resolutions_to_scales ext code resolutions)"

subsection \<open>The Node tree, by value\<close>

text \<open>
  A \<^verbatim>\<open>Node\<close> with the subtree below it: its name, the layer attached to it (if any)
  and its children, in order. The \<^verbatim>\<open>parent\<close> links of the objects are treated with
  the object store further down; \<^verbatim>\<open>find\<close> and the mirroring functions never read
  them.
\<close>

datatype 'l node =
  Node (node_name: string) (node_layer: "'l option") (node_children: "'l node list")

text \<open>
  \<^verbatim>\<open>Node.find\<close>: the receiver first, then the children in order; the first child
  whose search gives a result decides (a \<^verbatim>\<open>Node\<close> object is always true in a
  condition, since the class defines neither \<^verbatim>\<open>__bool__\<close> nor \<^verbatim>\<open>__len__\<close>); falling
  out of the loop returns \<^verbatim>\<open>None\<close>.
\<close>

fun find_node :: "string \<Rightarrow> 'l node \<Rightarrow> 'l node option"
  and find_children :: "string \<Rightarrow> 'l node list \<Rightarrow> 'l node option" where
  "find_node nm (Node n l cs) =
     (if nm = n then Some (Node n l cs) else find_children nm cs)"
| "find_children nm [] = None"
| "find_children nm (child # cs) =
     (case find_node nm child of
        Some res \<Rightarrow> Some res
      | None \<Rightarrow> find_children nm cs)"

text \<open>The nodes of a subtree in pre-order.\<close>

fun preorder :: "'l node \<Rightarrow> 'l node list" where
  "preorder (Node n l cs) = Node n l cs # concat (map preorder cs)"

subsection \<open>Mirroring the host's layer tree\<close>

text \<open>
  A node of the host's layer tree is a \<^verbatim>\<open>QgsLayerTreeLayer\<close> holding a layer, or
  else a group with a name and children.
\<close>

datatype 'l tree_node =
  QgsLayerTreeLayer 'l
| QgsLayerTreeGroup string "'l tree_node list"

text \<open>
  The local function \<^verbatim>\<open>overlays_tree\<close> of \<^verbatim>\<open>get_project_layers\<close>, with the layer test
  it calls as a parameter. \<^verbatim>\<open>Node(layer.id(), layer=layer)\<close> has no children;
  \<^verbatim>\<open>Node(tree_node.name(), children)\<close> appends the collected nodes, none of which is
  \<^verbatim>\<open>None\<close> or a string, in order.
\<close>

fun layers_overlays_tree ::
  "(('p, 'x) layer_scheme \<Rightarrow> bool) \<Rightarrow> ('p, 'x) layer_scheme tree_node
     \<Rightarrow> ('p, 'x) layer_scheme node option"
  and layers_overlays_children ::
  "(('p, 'x) layer_scheme \<Rightarrow> bool) \<Rightarrow> ('p, 'x) layer_scheme tree_node list
     \<Rightarrow> ('p, 'x) layer_scheme node list" where
  "layers_overlays_tree pub (QgsLayerTreeLayer layer) =
     (if pub layer then Some (Node (layer_id layer) (Some layer) []) else None)"
| "layers_overlays_tree pub (QgsLayerTreeGroup nm cs) =
     (let children = layers_overlays_children pub cs
      in if children \<noteq> [] then Some (Node nm None children) else None)"
| "layers_overlays_children pub [] = []"
| "layers_overlays_children pub (child_tree_node # cs) =
     (case layers_overlays_tree pub child_tree_node of
        Some node \<Rightarrow> node # layers_overlays_children pub cs
      | None \<Rightarrow> layers_overlays_children pub cs)"

definition get_project_layers ::
  "('p, 'x) layer_scheme tree_node \<Rightarrow> ('p, 'x) layer_scheme node option" where
  "get_project_layers root_node =
     layers_overlays_tree is_overlay_layer_for_publish root_node"

text \<open>The local function \<^verbatim>\<open>overlays_tree\<close> of \<^verbatim>\<open>get_project_base_layers\<close>, likewise.\<close>

fun base_overlays_tree ::
  "(('p, 'x) layer_scheme \<Rightarrow> bool) \<Rightarrow> ('p, 'x) layer_scheme tree_node
     \<Rightarrow> ('p, 'x) layer_scheme node option"
  and base_overlays_children ::
  "(('p, 'x) layer_scheme \<Rightarrow> bool) \<Rightarrow> ('p, 'x) layer_scheme tree_node list
     \<Rightarrow> ('p, 'x) layer_scheme node list" where
  "base_overlays_tree pub (QgsLayerTreeLayer layer) =
     (if pub layer then Some (Node (layer_id layer) (Some layer) []) else None)"
| "base_overlays_tree pub (QgsLayerTreeGroup nm cs) =
     (let children = base_overlays_children pub cs
      in if children \<noteq> [] then Some (Node nm None children) else None)"
| "base_overlays_children pub [] = []"
| "base_overlays_children pub (child_tree_node # cs) =
     (case base_overlays_tree pub child_tree_node of
        Some node \<Rightarrow> node # base_overlays_children pub cs
      | None \<Rightarrow> base_overlays_children pub cs)"

definition get_project_base_layers ::
  "('p, 'x) layer_scheme tree_node \<Rightarrow> ('p, 'x) layer_scheme node option" where
  "get_project_base_layers root_node =
     base_overlays_tree is_base_layer_for_publish root_node"

text \<open>
  The mirrored tree as the specification words it: the layers of a host tree in
  order, whether a subtree holds a layer that qualifies, and the mirror image that
  keeps the qualifying layers as leaves and the groups that hold one, with their names
  and nesting.
\<close>

fun tree_layers :: "'l tree_node \<Rightarrow> 'l list" where
  "tree_layers (QgsLayerTreeLayer l) = [l]"
| "tree_layers (QgsLayerTreeGroup nm cs) = concat (map tree_layers cs)"

definition has_publishable :: "('l \<Rightarrow> bool) \<Rightarrow> 'l tree_node \<Rightarrow> bool" where
  "has_publishable pub t = list_ex pub (tree_layers t)"

fun mirror ::
  "(('p, 'x) layer_scheme \<Rightarrow> bool) \<Rightarrow> ('p, 'x) layer_scheme tree_node
     \<Rightarrow> ('p, 'x) layer_scheme node" where
  "mirror pub (QgsLayerTreeLayer l) = Node (layer_id l) (Some l) []"
| "mirror pub (QgsLayerTreeGroup nm cs) =
     Node nm None (map (mirror pub) (filter (has_publishable pub) cs))"

fun leaves :: "'l node \<Rightarrow> 'l node list" where
  "leaves (Node n l cs) = (if cs = [] then [Node n l cs] else concat (map leaves cs))"

subsection \<open>A small project for the examples\<close>

definition roads :: "nat layer" where
  "roads = \<lparr> layer_id = ''roads'', ltype = VectorLayer, providerType = ''ogr'',
     hasScaleBasedVisibility = False, maximumScale = 0, minimumScale = 0,
     resolutions_property = None \<rparr>"

definition dem :: "nat layer" where
  "dem = \<lparr> layer_id = ''dem'', ltype = RasterLayer, providerType = ''gdal'',
     hasScaleBasedVisibility = False, maximumScale = 0, minimumScale = 0,
     resolutions_property = None \<rparr>"

definition osm :: "nat layer" where
  "osm = \<lparr> layer_id = ''osm'', ltype = RasterLayer, providerType = ''wms'',
     hasScaleBasedVisibility = False, maximumScale = 0, minimumScale = 0,
     resolutions_property = Some [8, 4, 2, 1] \<rparr>"

definition example_root :: "nat layer tree_node" where
  "example_root =
     QgsLayerTreeGroup ''''
       [QgsLayerTreeGroup ''data'' [QgsLayerTreeLayer roads, QgsLayerTreeLayer osm],
        QgsLayerTreeGroup ''empty'' [QgsLayerTreeGroup ''inner'' []],
        QgsLayerTreeLayer dem,
        QgsLayerTreeGroup ''background'' [QgsLayerTreeLayer osm]]"

subsection \<open>Node objects in a store\<close>

text \<open>
  A \<^verbatim>\<open>Node\<close> object: name, layer, parent and children. Objects live in a store,
  a list of cells addressed by position; a reference to a node is its address, so two
  children lists can hold the same node. \<^verbatim>\<open>__init__\<close> always sets \<^verbatim>\<open>children\<close> to a
  list, and \<^verbatim>\<open>parent\<close> stays the class attribute \<^verbatim>\<open>None\<close> until an \<^verbatim>\<open>append\<close> sets it.
\<close>

record 'l node_cell =
  cell_name :: string
  cell_layer :: "'l option"
  cell_parent :: "nat option"
  cell_children :: "nat list"

type_synonym 'l store = "'l node_cell list"

text \<open>
  An argument of \<^verbatim>\<open>append\<close>: \<^verbatim>\<open>None\<close>, a string, or a reference to a node.
\<close>

datatype node_arg = ArgNone | ArgStr string | ArgNode nat

text \<open>
  The cell of \<^verbatim>\<open>Node(name, layer=layer)\<close> before any child is appended.
\<close>

definition new_cell :: "string \<Rightarrow> 'l option \<Rightarrow> 'l node_cell" where
  "new_cell nm lyr =
     \<lparr> cell_name = nm, cell_layer = lyr, cell_parent = None, cell_children = [] \<rparr>"

text \<open>
  The last two statements of the loop body of \<^verbatim>\<open>append\<close>:
  \<^verbatim>\<open>node.parent = self\<close>, then \<^verbatim>\<open>self.children.append(node)\<close>.
\<close>

definition attach :: "'l store \<Rightarrow> nat \<Rightarrow> nat \<Rightarrow> 'l store" where
  "attach h self node =
     (let h1 = h[node := (h ! node)\<lparr> cell_parent := Some self \<rparr>]
      in h1[self := (h1 ! self)\<lparr> cell_children := cell_children (h1 ! self) @ [node] \<rparr>])"

text \<open>
  \<^verbatim>\<open>Node.append\<close>: \<^verbatim>\<open>None\<close> is skipped, a string is wrapped by \<^verbatim>\<open>Node(node)\<close>, which
  allocates a cell without children at the next free address, and the node is attached.
\<close>

fun append_node :: "'l store \<Rightarrow> nat \<Rightarrow> node_arg list \<Rightarrow> 'l store" where
  "append_node h self [] = h"
| "append_node h self (ArgNone # nodes) = append_node h self nodes"
| "append_node h self (ArgStr s # nodes) =
     append_node (attach (h @ [new_cell s None]) self (length h)) self nodes"
| "append_node h self (ArgNode node # nodes) =
     append_node (attach h self node) self nodes"

text \<open>
  \<^verbatim>\<open>Node.__init__\<close>: the new object is allocated, then the children, if the
  argument is a non-empty list, are appended to it. The result is the store and the
  address of the new node.
\<close>

definition Node_init ::
  "'l store \<Rightarrow> string \<Rightarrow> node_arg list \<Rightarrow> 'l option \<Rightarrow> 'l store \<times> nat" where
  "Node_init h nm children lyr =
     (let self = length h; h1 = h @ [new_cell nm lyr]
      in (if children \<noteq> [] then append_node h1 self children else h1, self))"

text \<open>
  Programs that build node structures: a sequence of constructor calls and
  \<^verbatim>\<open>append\<close> calls, run from the empty store. A call can only name objects that
  exist; \<open>run\<close> is \<open>None\<close> for a sequence that names an address not yet allocated.
\<close>

fun arg_ok :: "nat \<Rightarrow> node_arg \<Rightarrow> bool" where
  "arg_ok n (ArgNode c) = (c < n)"
| "arg_ok n _ = True"

datatype 'l op = New string "node_arg list" "'l option" | Append nat "node_arg list"

fun run :: "'l op list \<Rightarrow> 'l store \<Rightarrow> 'l store option" where
  "run [] h = Some h"
| "run (New nm children lyr # ops) h =
     (if list_all (arg_ok (length h)) children
      then run ops (fst (Node_init h nm children lyr)) else None)"
| "run (Append self nodes # ops) h =
     (if self < length h \<and> list_all (arg_ok (length h)) nodes
      then run ops (append_node h self nodes) else None)"

text \<open>
  The parent invariant: every child \<open>c\<close> in the children of a node \<open>n\<close> is an
  allocated node with parent \<open>n\<close>.
\<close>

definition parent_invariant :: "'l store \<Rightarrow> bool" where
  "parent_invariant h =
     list_all (\<lambda>n. list_all (\<lambda>c. c < length h \<and> cell_parent (h ! c) = Some n)
                      (cell_children (h ! n))) [0..<length h]"

text \<open>
  A discipline on the calls: a node is passed to \<^verbatim>\<open>append\<close>, or to the constructor as a
  child, only while it has no parent or its parent is the receiver already.
  \<open>run_unattached\<close> runs a program as \<open>run\<close> does and is \<open>None\<close> when a call breaks
  the discipline.
\<close>

fun arg_unattached :: "'l store \<Rightarrow> nat \<Rightarrow> node_arg \<Rightarrow> bool" where
  "arg_unattached h self (ArgNode c) =
     (c < length h \<and> (cell_parent (h ! c) = None \<or> cell_parent (h ! c) = Some self))"
| "arg_unattached h self _ = True"

fun run_unattached :: "'l op list \<Rightarrow> 'l store \<Rightarrow> 'l store option" where
  "run_unattached [] h = Some h"
| "run_unattached (New nm children lyr # ops) h =
     (if list_all (arg_unattached h (length h)) children
      then run_unattached ops (fst (Node_init h nm children lyr)) else None)"
| "run_unattached (Append self nodes # ops) h =
     (if self < length h \<and> list_all (arg_unattached h self) nodes
      then run_unattached ops (append_node h self nodes) else None)"

text \<open>
  The addresses \<^verbatim>\<open>append\<close> adds to the children, in order, when the next free
  address is \<open>next\<close>, and the names of the nodes it wraps.
\<close>

fun appended_addresses :: "nat \<Rightarrow> node_arg list \<Rightarrow> nat list" where
  "appended_addresses next [] = []"
| "appended_addresses next (ArgNone # nodes) = appended_addresses next nodes"
| "appended_addresses next (ArgStr s # nodes) = next # appended_addresses (Suc next) nodes"
| "appended_addresses next (ArgNode c # nodes) = c # appended_addresses next nodes"

fun wrapped_names :: "node_arg list \<Rightarrow> string list" where
  "wrapped_names [] = []"
| "wrapped_names (ArgStr s # nodes) = s # wrapped_names nodes"
| "wrapped_names (_ # nodes) = wrapped_names nodes"


text \<open>
  \<^verbatim>\<open>c = Node('c'); a = Node('a', [c, 'b', None]); a.append('d', None, c)\<close> and the store
  it builds.
\<close>

definition example_ops :: "nat op list" where
  "example_ops =
     [New ''c'' [] None,
      New ''a'' [ArgNode 0, ArgStr ''b'', ArgNone] None,
      Append 1 [ArgStr ''d'', ArgNone, ArgNode 0]]"

definition example_store :: "nat store" where
  "example_store =
     [\<lparr>cell_name = ''c'', cell_layer = None, cell_parent = Some 1, cell_children = []\<rparr>,
      \<lparr>cell_name = ''a'', cell_layer = None, cell_parent = None,
        cell_children = [0, 2, 3, 0]\<rparr>,
      \<lparr>cell_name = ''b'', cell_layer = None, cell_parent = Some 1, cell_children = []\<rparr>,
      \<lparr>cell_name = ''d'', cell_layer = None, cell_parent = Some 1, cell_children = []\<rparr>]"

text \<open>
  \<^verbatim>\<open>a = Node('a'); b = Node('b'); c = Node('c'); a.append(c); b.append(c)\<close> and the
  store it builds: \<^verbatim>\<open>c\<close> is a child of both, and its parent is \<^verbatim>\<open>b\<close>.
\<close>

definition two_parents_ops :: "nat op list" where
  "two_parents_ops =
     [New ''a'' [] None, New ''b'' [] None, New ''c'' [] None,
      Append 0 [ArgNode 2], Append 1 [ArgNode 2]]"

definition two_parents_store :: "nat store" where
  "two_parents_store =
     [\<lparr>cell_name = ''a'', cell_layer = None, cell_parent = None, cell_children = [2]\<rparr>,
      \<lparr>cell_name = ''b'', cell_layer = None, cell_parent = None, cell_children = [2]\<rparr>,
      \<lparr>cell_name = ''c'', cell_layer = None, cell_parent = Some 1, cell_children = []\<rparr>]"

subsection \<open>Resolutions of the project\<close>

text \<open>
  What \<^verbatim>\<open>project_layers_resolutions\<close> reads: the layers of the project
  (\<^verbatim>\<open>QgsProject.instance().mapLayers().values()\<close>), the canvas' map unit code and the
  result of \<^verbatim>\<open>readListEntry("Scales", "/ScalesList")\<close>, a list of strings and a flag.
\<close>

record 'p project_state =
  mapLayers :: "'p layer list"
  mapUnits :: int
  scales_entry :: "string list \<times> bool"

text \<open>
  \<^verbatim>\<open>wmsc_layer_resolutions\<close>: \<^verbatim>\<open>None\<close> when the provider has no resolutions (the
  property is \<^verbatim>\<open>None\<close> or empty), else the visible resolutions in descending order.
\<close>

definition wmsc_layer_resolutions ::
  "('p, 'y) externals_scheme \<Rightarrow> int \<Rightarrow> ('p, 'x) layer_scheme \<Rightarrow> error + rat list option" where
  "wmsc_layer_resolutions ext code layer =
     (case resolutions_property layer of
        None \<Rightarrow> Inr None
      | Some raw \<Rightarrow>
          if raw \<noteq> [] then
            (let layer_resolutions = map (to_decimal ext) raw
             in case (if hasScaleBasedVisibility layer
                      then filter_visible_resolutions ext code layer_resolutions layer
                      else Inr layer_resolutions) of
                  Inl e \<Rightarrow> Inl e
                | Inr layer_resolutions \<Rightarrow>
                    if layer_resolutions \<noteq> [] then Inr (Some (rev (sort layer_resolutions)))
                    else Inr (Some []))
          else Inr None)"

text \<open>
  A Python set of numbers, as a list without duplicates. The order of its elements
  plays no part: the set is converted element by element, tested for membership and
  sorted.
\<close>

definition set_update :: "'a list \<Rightarrow> 'a list \<Rightarrow> 'a list" where
  "set_update s xs = remdups (s @ xs)"

text \<open>
  The dictionary comprehension \<^verbatim>\<open>base_layers\<close>: a later layer of the same id
  replaces the earlier one.
\<close>

definition base_layers ::
  "('p, 'x) layer_scheme list \<Rightarrow> (string \<times> ('p, 'x) layer_scheme) list" where
  "base_layers layers =
     fold (\<lambda>layer d. AList.update (layer_id layer) layer d)
       (filter is_base_layer_for_publish layers) []"

text \<open>
  The loop over the base layers: a layer whose resolutions are \<^verbatim>\<open>None\<close> or empty
  adds nothing.
\<close>

fun collect_wmsc_resolutions ::
  "('p, 'y) externals_scheme \<Rightarrow> int \<Rightarrow> ('p, 'x) layer_scheme list \<Rightarrow> rat list
     \<Rightarrow> error + rat list" where
  "collect_wmsc_resolutions ext code [] project_tile_resolutions =
     Inr project_tile_resolutions"
| "collect_wmsc_resolutions ext code (layer # layers) project_tile_resolutions =
     (case wmsc_layer_resolutions ext code layer of
        Inl e \<Rightarrow> Inl e
      | Inr None \<Rightarrow> collect_wmsc_resolutions ext code layers project_tile_resolutions
      | Inr (Some layer_resolutions) \<Rightarrow>
          collect_wmsc_resolutions ext code layers
            (if layer_resolutions \<noteq> []
             then set_update project_tile_resolutions layer_resolutions
             else project_tile_resolutions))"

text \<open>
  \<^verbatim>\<open>int(scale.split(":")[-1])\<close> for each stored scale: the text after the last
  colon, read by \<^verbatim>\<open>int\<close>, which raises \<^verbatim>\<open>ValueError\<close> on text that is no integer.
\<close>

definition last_field :: "string \<Rightarrow> string" where
  "last_field scale = rev (takeWhile (\<lambda>c. c \<noteq> CHR '':'') (rev scale))"

fun parse_scales :: "(string \<Rightarrow> int option) \<Rightarrow> string list \<Rightarrow> error + int list" where
  "parse_scales int_of [] = Inr []"
| "parse_scales int_of (scale # scales) =
     (case int_of (last_field scale) of
        None \<Rightarrow> Inl ValueError
      | Some n \<Rightarrow>
          (case parse_scales int_of scales of
             Inl e \<Rightarrow> Inl e
           | Inr ns \<Rightarrow> Inr (n # ns)))"

definition project_layers_resolutions ::
  "('p, 'y) externals_scheme \<Rightarrow> ('p, 'z) project_state_scheme \<Rightarrow> error + rat list" where
  "project_layers_resolutions ext st =
     (case collect_wmsc_resolutions ext (mapUnits st)
             (map snd (base_layers (mapLayers st))) [] of
        Inl e \<Rightarrow> Inl e
      | Inr project_tile_resolutions \<Rightarrow>
          (case resolutions_to_scales ext (mapUnits st) project_tile_resolutions of
             Inl e \<Rightarrow> Inl e
           | Inr wmsc_layers_scales \<Rightarrow>
               (case scales_entry st of
                  (scales, ok) \<Rightarrow>
                    if ok \<and> scales \<noteq> [] then
                      (case parse_scales (py_int ext) scales of
                         Inl e \<Rightarrow> Inl e
                       | Inr scales \<Rightarrow>
                           (let scales = filter (\<lambda>scale. scale \<notin> set wmsc_layers_scales) scales
                            in case scales_to_resolutions ext (mapUnits st)
                                      (map of_int (rev (sort scales))) of
                                 Inl e \<Rightarrow> Inl e
                               | Inr resolutions \<Rightarrow>
                                   Inr (rev (sort (set_update project_tile_resolutions
                                                     resolutions)))))
                    else Inr (rev (sort project_tile_resolutions)))))"

text \<open>
  The sets the result is made of, in the words of the specification: the visible
  resolutions of a WMSC layer, their union over the base layers of the project, the
  stored scales, and the resolutions of the stored scales that are not already the
  scale of a WMSC resolution.
\<close>

definition visible_resolutions ::
  "('p, 'y) externals_scheme \<Rightarrow> string \<Rightarrow> ('p, 'x) layer_scheme \<Rightarrow> rat set" where
  "visible_resolutions ext units layer =
     (case resolutions_property layer of
        None \<Rightarrow> {}
      | Some raw \<Rightarrow>
          {res \<in> to_decimal ext ` set raw.
             hasScaleBasedVisibility layer \<longrightarrow>
               scale_to_resolution ext units (minimumScale layer) \<le> res \<and>
               res < scale_to_resolution ext units (maximumScale layer)})"

definition wmsc_resolutions ::
  "('p, 'y) externals_scheme \<Rightarrow> string \<Rightarrow> ('p, 'z) project_state_scheme \<Rightarrow> rat set" where
  "wmsc_resolutions ext units st =
     (\<Union>layer \<in> {layer \<in> set (mapLayers st). is_base_layer_for_publish layer}.
        visible_resolutions ext units layer)"

definition stored_scales ::
  "('p, 'y) externals_scheme \<Rightarrow> ('p, 'z) project_state_scheme \<Rightarrow> int list" where
  "stored_scales ext st =
     (case scales_entry st of
        (scales, ok) \<Rightarrow>
          if ok then List.map_filter (\<lambda>scale. py_int ext (last_field scale)) scales else [])"

definition stored_scale_resolutions ::
  "('p, 'y) externals_scheme \<Rightarrow> string \<Rightarrow> ('p, 'z) project_state_scheme \<Rightarrow> rat set" where
  "stored_scale_resolutions ext units st =
     (\<lambda>scale. scale_to_resolution ext units (of_int scale)) `
       {scale \<in> set (stored_scales ext st).
          scale \<notin> resolution_to_scale ext units ` wmsc_resolutions ext units st}"


text \<open>
  A project with two WMSC layers and three stored scales.
\<close>

definition ortho :: "nat layer" where
  "ortho = \<lparr> layer_id = ''ortho'', ltype = RasterLayer, providerType = ''wms'',
     hasScaleBasedVisibility = True, maximumScale = 20000, minimumScale = 4000,
     resolutions_property = Some [32, 16, 4, 2] \<rparr>"

definition example_ext :: "nat externals" where
  "example_ext =
     \<lparr> scale_to_resolution = (\<lambda>units scale. scale / 1000),
       resolution_to_scale = (\<lambda>units resolution. round (resolution * 1000)),
       to_decimal = of_nat,
       py_int = (\<lambda>s. if s = ''1000'' then Some 1000 else if s = ''4000'' then Some 4000
                      else if s = ''500'' then Some 500 else None) \<rparr>"

definition example_project :: "nat project_state" where
  "example_project =
     \<lparr> mapLayers = [roads, osm, dem, ortho], mapUnits = 0,
       scales_entry = ([''1:1000'', ''1:500'', ''1:4000''], True) \<rparr>"

subsection \<open>Metadata of the last publication\<close>


text \<open>
  \<^verbatim>\<open>str.endswith\<close>, and the compiled pattern
  \<^verbatim>\<open>re.escape(base) + '_(\d{10})\.meta'\<close> applied with \<^verbatim>\<open>match\<close>: it matches at the
  start of the file name and lets any text follow; the result is group 1, the ten
  digits. File names are taken to be ASCII, where \<^verbatim>\<open>\d\<close> is a digit from 0 to 9.
\<close>

definition endswith :: "string \<Rightarrow> string \<Rightarrow> bool" where
  "endswith s suffix =
     (length suffix \<le> length s \<and> drop (length s - length suffix) s = suffix)"

definition is_digit :: "char \<Rightarrow> bool" where
  "is_digit c = (CHR ''0'' \<le> c \<and> c \<le> CHR ''9'')"

definition int_of_digits :: "string \<Rightarrow> int" where
  "int_of_digits ds = foldl (\<lambda>n c. 10 * n + (of_char c - 48)) 0 ds"

definition pattern_match :: "string \<Rightarrow> string \<Rightarrow> string option" where
  "pattern_match base filename =
     (if take (length base) filename = base then
        (case drop (length base) filename of
           [] \<Rightarrow> None
         | c # rest \<Rightarrow>
             if c = CHR ''_'' \<and> length (take 10 rest) = 10 \<and> list_all is_digit (take 10 rest)
                \<and> take 5 (drop 10 rest) = ''.meta''
             then Some (take 10 rest) else None)
      else None)"



text \<open>
  The timestamp of a file name the loop accepts, and the timestamp of a file name that
  is, as a whole, the base name, an underscore, ten digits and \<^verbatim>\<open>.meta\<close>.
\<close>

definition metadata_timestamp :: "string \<Rightarrow> string \<Rightarrow> int option" where
  "metadata_timestamp base filename =
     (if endswith filename ''.meta''
      then map_option int_of_digits (pattern_match base filename) else None)"




section \<open>Properties\<close>

subsection \<open>Layer predicates\<close>

text \<open>
  Claim C4. A layer is a base layer for publishing exactly when it is a raster layer
  whose provider type is "wms"; a layer of any other type, or of any other provider, is
  not.
\<close>

theorem is_base_layer_for_publish_iff:
  "is_base_layer_for_publish layer
     = (ltype layer = RasterLayer \<and> providerType layer = ''wms'')
   \<and> (ltype layer \<noteq> RasterLayer \<longrightarrow> \<not> is_base_layer_for_publish layer)
   \<and> (providerType layer \<noteq> ''wms'' \<longrightarrow> \<not> is_base_layer_for_publish layer)"
  by (simp add: is_base_layer_for_publish_def)

theorem is_base_layer_for_publish_iff_witness:
  "is_base_layer_for_publish
     \<lparr> layer_id = ''osm'', ltype = RasterLayer, providerType = ''wms'',
       hasScaleBasedVisibility = False, maximumScale = 0, minimumScale = 0,
       resolutions_property = (None :: nat list option) \<rparr>
   \<and> \<not> is_base_layer_for_publish
     \<lparr> layer_id = ''roads'', ltype = VectorLayer, providerType = ''wms'',
       hasScaleBasedVisibility = False, maximumScale = 0, minimumScale = 0,
       resolutions_property = (None :: nat list option) \<rparr>
   \<and> \<not> is_base_layer_for_publish
     \<lparr> layer_id = ''dem'', ltype = RasterLayer, providerType = ''gdal'',
       hasScaleBasedVisibility = False, maximumScale = 0, minimumScale = 0,
       resolutions_property = (None :: nat list option) \<rparr>"
  using
    is_base_layer_for_publish_iff [of "\<lparr> layer_id = ''osm'', ltype = RasterLayer,
       providerType = ''wms'', hasScaleBasedVisibility = False, maximumScale = 0,
       minimumScale = 0, resolutions_property = (None :: nat list option) \<rparr>"]
    is_base_layer_for_publish_iff [of "\<lparr> layer_id = ''roads'', ltype = VectorLayer,
       providerType = ''wms'', hasScaleBasedVisibility = False, maximumScale = 0,
       minimumScale = 0, resolutions_property = (None :: nat list option) \<rparr>"]
    is_base_layer_for_publish_iff [of "\<lparr> layer_id = ''dem'', ltype = RasterLayer,
       providerType = ''gdal'', hasScaleBasedVisibility = False, maximumScale = 0,
       minimumScale = 0, resolutions_property = (None :: nat list option) \<rparr>"]
  by simp

text \<open>
  Claim C5. A layer is an overlay layer for publishing exactly when it is a vector
  layer, or a raster layer whose provider type is not "wms"; so no layer is both an
  overlay layer and a base layer.
\<close>

theorem is_overlay_layer_for_publish_iff:
  "is_overlay_layer_for_publish layer
     = (ltype layer = VectorLayer
        \<or> (ltype layer = RasterLayer \<and> providerType layer \<noteq> ''wms''))
   \<and> \<not> (is_overlay_layer_for_publish layer \<and> is_base_layer_for_publish layer)"
  by (auto simp add: is_overlay_layer_for_publish_def is_base_layer_for_publish_def)

theorem is_overlay_layer_for_publish_iff_witness:
  "is_overlay_layer_for_publish
     \<lparr> layer_id = ''dem'', ltype = RasterLayer, providerType = ''gdal'',
       hasScaleBasedVisibility = False, maximumScale = 0, minimumScale = 0,
       resolutions_property = (None :: nat list option) \<rparr>
   \<and> \<not> is_base_layer_for_publish
     \<lparr> layer_id = ''dem'', ltype = RasterLayer, providerType = ''gdal'',
       hasScaleBasedVisibility = False, maximumScale = 0, minimumScale = 0,
       resolutions_property = (None :: nat list option) \<rparr>"
  using
    is_overlay_layer_for_publish_iff [of "\<lparr> layer_id = ''dem'', ltype = RasterLayer,
       providerType = ''gdal'', hasScaleBasedVisibility = False, maximumScale = 0,
       minimumScale = 0, resolutions_property = (None :: nat list option) \<rparr>"]
  by simp

subsection \<open>Scales and resolutions\<close>

lemma scales_to_resolutions_known:
  "map_units code = Inr units \<Longrightarrow>
   scales_to_resolutions ext code scales = Inr (map (scale_to_resolution ext units) scales)"
  by (simp add: scales_to_resolutions_def)

lemma resolutions_to_scales_known:
  "map_units code = Inr units \<Longrightarrow>
   resolutions_to_scales ext code rs = Inr (map (resolution_to_scale ext units) rs)"
  by (simp add: resolutions_to_scales_def)

lemma spec_round_trip_one:
  assumes "inches_per_unit units \<noteq> 0"
  shows "spec_resolution_to_scale inches_per_unit units
           (spec_scale_to_resolution inches_per_unit units (of_int s)) = s"
proof -
  have "DPI \<noteq> 0" by (simp add: DPI_def)
  with assms have "of_int s / (DPI * inches_per_unit units) * inches_per_unit units * DPI
      = (of_int s :: rat)"
    by (simp add: field_simps)
  then show ?thesis
    by (simp add: spec_resolution_to_scale_def spec_scale_to_resolution_def)
qed

text \<open>
  Claim C2. For a map unit the canvas knows and a list of map scales, converting the
  scales to resolutions and the result back to scales, both at 96 DPI, gives the
  original list. The unit's length in inches must not be zero.
\<close>

theorem scales_round_trip_identity:
  assumes "map_units code = Inr units" and "inches_per_unit units \<noteq> 0"
  shows "scales_round_trip (spec_utils inches_per_unit :: 'p externals) code scales
           = Inr scales"
proof -
  have "map (spec_resolution_to_scale inches_per_unit units)
          (map (spec_scale_to_resolution inches_per_unit units) (map of_int scales))
        = scales"
    using assms(2) by (induction scales) (simp_all add: spec_round_trip_one)
  then show ?thesis
    using assms(1)
    by (simp add: scales_round_trip_def scales_to_resolutions_known
        resolutions_to_scales_known spec_utils_def)
qed

theorem scales_round_trip_identity_witness:
  "map_units 0 = Inr ''meters'' \<and> (3937 / 100 :: rat) \<noteq> 0
   \<and> scales_round_trip (spec_utils (\<lambda>_. 3937 / 100) :: nat externals) 0 [1000, 25000, 7]
       = Inr [1000, 25000, 7]"
  using scales_round_trip_identity [of 0 "''meters''" "\<lambda>_. 3937 / 100" "[1000, 25000, 7]"]
  by (simp add: map_units_def)

text \<open>
  Claim C7. Without scale based visibility the resolutions come back unchanged. With
  it, and map units the canvas knows, the result is the input resolutions \<open>res\<close> with
  \<open>min_res \<le> res < max_res\<close>, in input order, where \<open>min_res\<close> and \<open>max_res\<close> are the
  conversions of the layer's minimum and maximum scale.
\<close>

theorem filter_visible_resolutions_spec:
  "(\<not> hasScaleBasedVisibility layer \<longrightarrow>
      filter_visible_resolutions ext code resolutions layer = Inr resolutions)
   \<and> (hasScaleBasedVisibility layer \<longrightarrow> map_units code = Inr units \<longrightarrow>
      scales_to_resolutions ext code [minimumScale layer] = Inr [min_res] \<and>
      scales_to_resolutions ext code [maximumScale layer] = Inr [max_res] \<longrightarrow>
      filter_visible_resolutions ext code resolutions layer
        = Inr (filter (\<lambda>res. min_res \<le> res \<and> res < max_res) resolutions))"
  by (auto simp add: filter_visible_resolutions_def scales_to_resolutions_def)

theorem filter_visible_resolutions_spec_witness:
  "filter_visible_resolutions
     \<lparr> scale_to_resolution = (\<lambda>u s. s / 4), resolution_to_scale = (\<lambda>u r. 0),
       to_decimal = (\<lambda>p :: rat. p), py_int = (\<lambda>s. None) \<rparr> 0 [16, 1, 4, 8, 2]
     \<lparr> layer_id = ''osm'', ltype = RasterLayer, providerType = ''wms'',
       hasScaleBasedVisibility = True, maximumScale = 32, minimumScale = 8,
       resolutions_property = None \<rparr>
   = Inr [4, 2]
   \<and> filter_visible_resolutions
     \<lparr> scale_to_resolution = (\<lambda>u s. s / 4), resolution_to_scale = (\<lambda>u r. 0),
       to_decimal = (\<lambda>p :: rat. p), py_int = (\<lambda>s. None) \<rparr> 0 [16, 1, 4, 8, 2]
     \<lparr> layer_id = ''osm'', ltype = RasterLayer, providerType = ''wms'',
       hasScaleBasedVisibility = False, maximumScale = 32, minimumScale = 8,
       resolutions_property = None \<rparr>
   = Inr [16, 1, 4, 8, 2]"
  using
    filter_visible_resolutions_spec [of
      "\<lparr> layer_id = ''osm'', ltype = RasterLayer, providerType = ''wms'',
         hasScaleBasedVisibility = True, maximumScale = 32, minimumScale = 8,
         resolutions_property = None \<rparr>"
      "\<lparr> scale_to_resolution = (\<lambda>u s. s / 4), resolution_to_scale = (\<lambda>u r. 0),
         to_decimal = (\<lambda>p :: rat. p), py_int = (\<lambda>s. None) \<rparr>"
      0 "[16, 1, 4, 8, 2]" "''meters''" 2 8]
    filter_visible_resolutions_spec [of
      "\<lparr> layer_id = ''osm'', ltype = RasterLayer, providerType = ''wms'',
         hasScaleBasedVisibility = False, maximumScale = 32, minimumScale = 8,
         resolutions_property = None \<rparr>"
      "\<lparr> scale_to_resolution = (\<lambda>u s. s / 4), resolution_to_scale = (\<lambda>u r. 0),
         to_decimal = (\<lambda>p :: rat. p), py_int = (\<lambda>s. None) \<rparr>"
      0 "[16, 1, 4, 8, 2]" "''meters''" 2 8]
  by (simp add: map_units_def scales_to_resolutions_def)

subsection \<open>Searching a Node tree\<close>

lemma find_append:
  "List.find P (xs @ ys) = (case List.find P xs of Some x \<Rightarrow> Some x | None \<Rightarrow> List.find P ys)"
  by (induction xs) auto

lemma find_node_preorder:
  "find_node nm (t :: 'l node) = List.find (\<lambda>n. node_name n = nm) (preorder t)"
  "find_children nm (cs :: 'l node list)
     = List.find (\<lambda>n. node_name n = nm) (concat (map preorder cs))"
proof (induction nm t and nm cs rule: find_node_find_children.induct)
  case (1 nm n l cs)
  then show ?case by auto
next
  case (2 nm)
  then show ?case by simp
next
  case (3 nm child cs)
  then show ?case by (simp add: find_append split: option.splits)
qed

text \<open>
  Claim C10. \<^verbatim>\<open>find\<close> returns the first node in pre-order (the receiver, then each
  child's subtree in order) whose name is the argument. So it returns a node of that
  name exactly when the subtree has one, and \<^verbatim>\<open>None\<close> exactly when it has none.
\<close>

theorem find_node_first_in_preorder:
  "find_node nm t = List.find (\<lambda>n. node_name n = nm) (preorder t)
   \<and> ((\<exists>r. find_node nm t = Some r \<and> node_name r = nm \<and> r \<in> set (preorder t))
        \<longleftrightarrow> (\<exists>n \<in> set (preorder t). node_name n = nm))
   \<and> (find_node nm t = None \<longleftrightarrow> (\<forall>n \<in> set (preorder t). node_name n \<noteq> nm))"
proof -
  let ?P = "\<lambda>n :: 'a node. node_name n = nm"
  have eq: "find_node nm t = List.find ?P (preorder t)"
    by (rule find_node_preorder(1))
  have none: "find_node nm t = None \<longleftrightarrow> (\<forall>n \<in> set (preorder t). node_name n \<noteq> nm)"
    by (auto simp add: eq find_None_iff)
  have some: "\<And>r. find_node nm t = Some r \<Longrightarrow> node_name r = nm \<and> r \<in> set (preorder t)"
    unfolding eq find_Some_iff by (metis nth_mem)
  have "(\<exists>r. find_node nm t = Some r \<and> node_name r = nm \<and> r \<in> set (preorder t))
        \<longleftrightarrow> (\<exists>n \<in> set (preorder t). node_name n = nm)"
  proof
    assume "\<exists>r. find_node nm t = Some r \<and> node_name r = nm \<and> r \<in> set (preorder t)"
    then show "\<exists>n \<in> set (preorder t). node_name n = nm" by blast
  next
    assume "\<exists>n \<in> set (preorder t). node_name n = nm"
    with none have "find_node nm t \<noteq> None" by blast
    then obtain r where "find_node nm t = Some r" by blast
    with some show "\<exists>r. find_node nm t = Some r \<and> node_name r = nm \<and> r \<in> set (preorder t)"
      by blast
  qed
  with eq none show ?thesis by blast
qed

theorem find_node_first_in_preorder_witness:
  "find_node ''c''
     (Node ''a'' None
        [Node ''b'' None [Node ''c'' (Some (1::nat)) []], Node ''c'' (Some 2) []])
     = Some (Node ''c'' (Some 1) [])
   \<and> find_node ''d''
     (Node ''a'' None
        [Node ''b'' None [Node ''c'' (Some (1::nat)) []], Node ''c'' (Some 2) []])
     = None"
  using
    find_node_first_in_preorder [of "''c''" "Node ''a'' None
        [Node ''b'' None [Node ''c'' (Some (1::nat)) []], Node ''c'' (Some 2) []]"]
    find_node_first_in_preorder [of "''d''" "Node ''a'' None
        [Node ''b'' None [Node ''c'' (Some (1::nat)) []], Node ''c'' (Some 2) []]"]
  by simp

subsection \<open>The mirrored trees\<close>

lemma has_publishable_group:
  "has_publishable pub (QgsLayerTreeGroup nm cs) = list_ex (has_publishable pub) cs"
  by (auto simp add: has_publishable_def list_ex_iff)

lemma overlays_tree_mirror:
  "layers_overlays_tree pub t
     = (if has_publishable pub t then Some (mirror pub t) else None)"
  "layers_overlays_children pub cs = map (mirror pub) (filter (has_publishable pub) cs)"
proof (induction pub t and pub cs rule: layers_overlays_tree_layers_overlays_children.induct)
  case (1 pub layer)
  then show ?case by (simp add: has_publishable_def)
next
  case (2 pub nm cs)
  then show ?case
    by (auto simp add: has_publishable_group list_ex_iff filter_empty_conv Let_def)
next
  case (3 pub)
  then show ?case by simp
next
  case (4 pub c cs)
  then show ?case by simp
qed

lemma leaves_mirror:
  "has_publishable pub t \<Longrightarrow>
   leaves (mirror pub t)
     = map (\<lambda>l. Node (layer_id l) (Some l) []) (filter pub (tree_layers t))"
proof (induction pub t rule: mirror.induct)
  case (1 pub l)
  then show ?case by (simp add: has_publishable_def)
next
  case (2 pub nm cs)
  let ?leaf = "\<lambda>l. Node (layer_id l) (Some l) []"
  have ne: "filter (has_publishable pub) cs \<noteq> []"
    using 2(2) by (auto simp add: has_publishable_group list_ex_iff filter_empty_conv)
  have nopub: "\<And>c. c \<in> set cs \<Longrightarrow> \<not> has_publishable pub c \<Longrightarrow> filter pub (tree_layers c) = []"
    by (auto simp add: has_publishable_def list_ex_iff filter_empty_conv)
  have "concat (map leaves (map (mirror pub) (filter (has_publishable pub) cs)))
      = concat (map (\<lambda>c. map ?leaf (filter pub (tree_layers c)))
          (filter (has_publishable pub) cs))"
  proof -
    have "map (\<lambda>x. leaves (mirror pub x)) (filter (has_publishable pub) cs)
        = map (\<lambda>c. map ?leaf (filter pub (tree_layers c)))
            (filter (has_publishable pub) cs)"
      by (rule map_cong [OF refl]) (simp add: 2(1))
    then show ?thesis by (simp only: map_map comp_def)
  qed
  also have "\<dots> = concat (map (\<lambda>c. map ?leaf (filter pub (tree_layers c))) cs)"
    using nopub by (induction cs) auto
  also have "\<dots> = map ?leaf (filter pub (concat (map tree_layers cs)))"
    by (induction cs) auto
  finally show ?case using ne by simp
qed

text \<open>
  Claim C3. \<^verbatim>\<open>get_project_layers\<close> returns \<^verbatim>\<open>None\<close> exactly when no layer of the host
  tree is an overlay layer. Otherwise it returns the mirror image of the host tree:
  every group that holds an overlay layer somewhere below it is kept with its name and
  nesting, every other group is left out, and the leaves are the overlay layers of the
  tree in order, each named by its id and carrying the layer.
\<close>

theorem get_project_layers_mirror:
  "get_project_layers root_node
     = (if has_publishable is_overlay_layer_for_publish root_node
        then Some (mirror is_overlay_layer_for_publish root_node) else None)
   \<and> (get_project_layers root_node = None
        \<longleftrightarrow> \<not> (\<exists>l \<in> set (tree_layers root_node). is_overlay_layer_for_publish l))
   \<and> (\<forall>tree. get_project_layers root_node = Some tree \<longrightarrow>
        leaves tree = map (\<lambda>l. Node (layer_id l) (Some l) [])
                        (filter is_overlay_layer_for_publish (tree_layers root_node)))"
proof -
  have eq: "get_project_layers root_node
     = (if has_publishable is_overlay_layer_for_publish root_node
        then Some (mirror is_overlay_layer_for_publish root_node) else None)"
    by (simp add: get_project_layers_def overlays_tree_mirror(1))
  have none: "get_project_layers root_node = None
        \<longleftrightarrow> \<not> (\<exists>l \<in> set (tree_layers root_node). is_overlay_layer_for_publish l)"
    by (simp add: eq has_publishable_def list_ex_iff)
  have lv: "\<forall>tree. get_project_layers root_node = Some tree \<longrightarrow>
        leaves tree = map (\<lambda>l. Node (layer_id l) (Some l) [])
                        (filter is_overlay_layer_for_publish (tree_layers root_node))"
    using leaves_mirror [of is_overlay_layer_for_publish root_node]
    by (auto simp add: eq split: if_splits)
  from eq none lv show ?thesis by blast
qed

theorem get_project_layers_mirror_witness:
  "get_project_layers example_root
     = Some (Node '''' None
         [Node ''data'' None [Node ''roads'' (Some roads) []],
          Node ''dem'' (Some dem) []])
   \<and> get_project_layers
       (QgsLayerTreeGroup '''' [QgsLayerTreeGroup ''background'' [QgsLayerTreeLayer osm]])
     = None"
  using get_project_layers_mirror [of example_root]
    get_project_layers_mirror [of
      "QgsLayerTreeGroup '''' [QgsLayerTreeGroup ''background'' [QgsLayerTreeLayer osm]]"]
  by (simp add: example_root_def has_publishable_def is_overlay_layer_for_publish_def
      roads_def dem_def osm_def)

lemma base_layers_tree_eq:
  "base_overlays_tree pub t = layers_overlays_tree pub t"
  "base_overlays_children pub cs = layers_overlays_children pub cs"
  by (induction pub t and pub cs rule: base_overlays_tree_base_overlays_children.induct)
    (simp_all add: Let_def split: option.splits)

text \<open>
  Claim C6. The two mirroring functions are one function of the layer test: with the
  same test in both they agree on every host tree, so \<^verbatim>\<open>get_project_base_layers\<close> is
  the function of \<^verbatim>\<open>get_project_layers\<close> with the base layer test in place of the
  overlay test, and the other way round.
\<close>

theorem mirroring_functions_coincide:
  "base_overlays_tree pub t = layers_overlays_tree pub t
   \<and> get_project_base_layers t = layers_overlays_tree is_base_layer_for_publish t
   \<and> get_project_layers t = base_overlays_tree is_overlay_layer_for_publish t"
  by (simp add: base_layers_tree_eq(1) get_project_base_layers_def get_project_layers_def)

theorem mirroring_functions_coincide_witness:
  "get_project_base_layers example_root
     = Some (Node '''' None
         [Node ''data'' None [Node ''osm'' (Some osm) []],
          Node ''background'' None [Node ''osm'' (Some osm) []]])
   \<and> layers_overlays_tree is_base_layer_for_publish example_root
     = get_project_base_layers example_root"
  using mirroring_functions_coincide [of is_base_layer_for_publish example_root]
  by (simp add: example_root_def is_base_layer_for_publish_def roads_def dem_def osm_def)

subsection \<open>Node objects: parents and children\<close>

lemma length_attach [simp]: "length (attach h self node) = length h"
  by (simp add: attach_def Let_def)

lemma children_attach:
  "self < length h \<Longrightarrow> node < length h \<Longrightarrow> k < length h \<Longrightarrow>
   cell_children (attach h self node ! k)
     = (if k = self then cell_children (h ! self) @ [node] else cell_children (h ! k))"
  by (auto simp add: attach_def Let_def nth_list_update)

lemma parent_attach:
  "self < length h \<Longrightarrow> node < length h \<Longrightarrow> k < length h \<Longrightarrow>
   cell_parent (attach h self node ! k)
     = (if k = node then Some self else cell_parent (h ! k))"
  by (auto simp add: attach_def Let_def nth_list_update)

lemma name_attach:
  "self < length h \<Longrightarrow> node < length h \<Longrightarrow> k < length h \<Longrightarrow>
   cell_name (attach h self node ! k) = cell_name (h ! k)"
  by (auto simp add: attach_def Let_def nth_list_update)

lemma nth_alloc:
  "k < length h \<Longrightarrow> (h @ [x]) ! k = h ! k"
  "(h @ [x]) ! length h = x"
  by (simp_all add: nth_append)

lemma length_append_node:
  "length (append_node h self nodes) = length h + length (wrapped_names nodes)"
  by (induction h self nodes rule: append_node.induct) auto

lemma arg_ok_mono: "arg_ok n a \<Longrightarrow> n \<le> m \<Longrightarrow> arg_ok m a"
  by (cases a) auto

lemma parent_invariant_iff:
  "parent_invariant h \<longleftrightarrow>
   (\<forall>n < length h. \<forall>c \<in> set (cell_children (h ! n)).
      c < length h \<and> cell_parent (h ! c) = Some n)"
  by (auto simp add: parent_invariant_def list_all_iff)

lemma children_append_node:
  "self < length h \<Longrightarrow> list_all (arg_ok (length h)) nodes \<Longrightarrow>
   cell_children (append_node h self nodes ! self)
     = cell_children (h ! self) @ appended_addresses (length h) nodes"
proof (induction h self nodes rule: append_node.induct)
  case (3 h self s nodes)
  let ?h = "attach (h @ [new_cell s None]) self (length h)"
  have ok: "list_all (arg_ok (length ?h)) nodes"
    using 3(3) by (auto simp add: list_all_iff intro: arg_ok_mono)
  have "cell_children (?h ! self) = cell_children (h ! self) @ [length h]"
    using 3(2) by (simp add: children_attach nth_alloc(1))
  with 3(1) [OF _ ok] 3(2) show ?case by simp
next
  case (4 h self node nodes)
  then show ?case by (simp add: children_attach)
qed auto

lemma length_appended_addresses:
  "length (appended_addresses n nodes) = length (filter (\<lambda>a. a \<noteq> ArgNone) nodes)"
  by (induction n nodes rule: appended_addresses.induct) auto

lemma names_update:
  "cell_name x = cell_name (h ! i) \<Longrightarrow> map cell_name (h[i := x]) = map cell_name h"
  by (induction h arbitrary: i) (auto split: nat.splits)

lemma names_attach: "map cell_name (attach h self node) = map cell_name h"
  by (simp add: attach_def Let_def names_update)

lemma names_append_node:
  "map cell_name (append_node h self nodes) = map cell_name h @ wrapped_names nodes"
  by (induction h self nodes rule: append_node.induct)
    (simp_all add: names_attach new_cell_def)

lemma names_of_wrapped:
  "map cell_name (drop (length h) (append_node h self nodes)) = wrapped_names nodes"
proof -
  have "map cell_name (drop (length h) (append_node h self nodes))
      = drop (length (map cell_name h)) (map cell_name (append_node h self nodes))"
    by (simp add: drop_map)
  also have "\<dots> = wrapped_names nodes"
    unfolding names_append_node by (rule append_eq_conv_conj [THEN iffD1, THEN conjunct2, symmetric]) simp
  finally show ?thesis .
qed

lemma arg_unattached_ok: "arg_unattached h self a \<Longrightarrow> arg_ok (length h) a"
  by (cases a) auto

lemma parent_invariant_attach:
  assumes inv: "parent_invariant h" and s: "self < length h" and n: "node < length h"
    and free: "cell_parent (h ! node) = None \<or> cell_parent (h ! node) = Some self"
  shows "parent_invariant (attach h self node)"
  unfolding parent_invariant_iff
proof (intro allI impI ballI)
  fix k c
  assume k: "k < length (attach h self node)"
    and c: "c \<in> set (cell_children (attach h self node ! k))"
  from k have k': "k < length h" by simp
  from c k' s n have mem: "c \<in> set (cell_children (h ! k)) \<or> (k = self \<and> c = node)"
    by (auto simp add: children_attach split: if_splits)
  then have cl: "c < length h"
    using inv k' n by (auto simp add: parent_invariant_iff)
  have "cell_parent (attach h self node ! c) = Some k"
  proof (cases "c = node")
    case True
    from mem show ?thesis
    proof
      assume "c \<in> set (cell_children (h ! k))"
      with inv k' have "cell_parent (h ! c) = Some k" by (simp add: parent_invariant_iff)
      with free True have "k = self" by simp
      with True s n show ?thesis by (simp add: parent_attach)
    next
      assume "k = self \<and> c = node"
      with s n show ?thesis by (simp add: parent_attach)
    qed
  next
    case False
    with mem have "c \<in> set (cell_children (h ! k))" by simp
    with inv k' have "cell_parent (h ! c) = Some k" by (simp add: parent_invariant_iff)
    with False s n cl show ?thesis by (simp add: parent_attach)
  qed
  with cl show "c < length (attach h self node)
      \<and> cell_parent (attach h self node ! c) = Some k" by simp
qed

lemma parent_invariant_alloc:
  assumes "parent_invariant h"
  shows "parent_invariant (h @ [new_cell nm lyr])"
  unfolding parent_invariant_iff
proof (intro allI impI ballI)
  let ?h = "h @ [new_cell nm lyr]"
  fix k c assume k: "k < length ?h" and c: "c \<in> set (cell_children (?h ! k))"
  have "k \<noteq> length h"
  proof
    assume "k = length h"
    with c show False by (simp add: new_cell_def)
  qed
  with k have k': "k < length h" by simp
  with c have "c \<in> set (cell_children (h ! k))" by (simp add: nth_alloc(1))
  with assms k' have "c < length h" "cell_parent (h ! c) = Some k"
    by (simp_all add: parent_invariant_iff)
  then show "c < length ?h \<and> cell_parent (?h ! c) = Some k" by (simp add: nth_alloc(1))
qed

lemma arg_unattached_attach:
  "arg_unattached h self a \<Longrightarrow> self < length h \<Longrightarrow> node < length h \<Longrightarrow>
   arg_unattached (attach h self node) self a"
  by (cases a) (auto simp add: parent_attach)

lemma arg_unattached_alloc:
  "arg_unattached h self a \<Longrightarrow> arg_unattached (h @ [x]) self a"
  by (cases a) (auto simp add: nth_alloc(1))

lemma parent_invariant_append_node:
  "parent_invariant h \<Longrightarrow> self < length h \<Longrightarrow> list_all (arg_unattached h self) nodes \<Longrightarrow>
   parent_invariant (append_node h self nodes)"
proof (induction h self nodes rule: append_node.induct)
  case (1 h self)
  then show ?case by simp
next
  case (2 h self nodes)
  then show ?case by simp
next
  case (3 h self s nodes)
  let ?h1 = "h @ [new_cell s None]"
  let ?h2 = "attach ?h1 self (length h)"
  have s1: "self < length ?h1" using 3(3) by simp
  have n1: "length h < length ?h1" by simp
  have "parent_invariant ?h1" using 3(2) by (rule parent_invariant_alloc)
  then have inv: "parent_invariant ?h2"
    using s1 n1 by (rule parent_invariant_attach) (simp add: nth_alloc(2) new_cell_def)
  have "list_all (arg_unattached ?h2 self) nodes"
    using 3(4) s1 n1
    by (auto simp add: list_all_iff intro!: arg_unattached_attach arg_unattached_alloc)
  with 3(1) inv s1 show ?case by simp
next
  case (4 h self node nodes)
  from 4(4) have n: "node < length h"
    and free: "cell_parent (h ! node) = None \<or> cell_parent (h ! node) = Some self"
    by simp_all
  have inv: "parent_invariant (attach h self node)"
    using 4(2,3) n free by (rule parent_invariant_attach)
  have "list_all (arg_unattached (attach h self node) self) nodes"
    using 4(3,4) n by (auto simp add: list_all_iff intro!: arg_unattached_attach)
  with 4(1) inv 4(3) show ?case by simp
qed

lemma parent_invariant_Node_init:
  assumes "parent_invariant h" "list_all (arg_unattached h (length h)) children"
  shows "parent_invariant (fst (Node_init h nm children lyr))"
proof -
  have 1: "parent_invariant (h @ [new_cell nm lyr])"
    using assms(1) by (rule parent_invariant_alloc)
  have 2: "list_all (arg_unattached (h @ [new_cell nm lyr]) (length h)) children"
    using assms(2) by (auto simp add: list_all_iff intro: arg_unattached_alloc)
  have "parent_invariant (append_node (h @ [new_cell nm lyr]) (length h) children)"
    using 1 _ 2 by (rule parent_invariant_append_node) simp
  with 1 show ?thesis by (simp add: Node_init_def Let_def)
qed

lemma run_unattached_invariant:
  "parent_invariant h \<Longrightarrow> run_unattached ops h = Some h' \<Longrightarrow>
   run ops h = Some h' \<and> parent_invariant h'"
proof (induction ops h rule: run_unattached.induct)
  case (1 h)
  then show ?case by simp
next
  case (2 nm children lyr ops h)
  from 2(3) have ok: "list_all (arg_unattached h (length h)) children"
    and r: "run_unattached ops (fst (Node_init h nm children lyr)) = Some h'"
    by (simp_all split: if_splits)
  from ok have ok': "list_all (arg_ok (length h)) children"
    by (auto simp add: list_all_iff intro: arg_unattached_ok)
  from 2(1) [OF ok parent_invariant_Node_init [OF 2(2) ok] r] ok' show ?case by simp
next
  case (3 self nodes ops h)
  from 3(3) have s: "self < length h" and ok: "list_all (arg_unattached h self) nodes"
    and r: "run_unattached ops (append_node h self nodes) = Some h'"
    by (simp_all split: if_splits)
  from ok have ok': "list_all (arg_ok (length h)) nodes"
    by (auto simp add: list_all_iff intro: arg_unattached_ok)
  have c: "self < length h \<and> list_all (arg_unattached h self) nodes" using s ok by simp
  from 3(1) [OF c parent_invariant_append_node [OF 3(2) s ok] r] s ok' show ?case by simp
qed

lemma parent_invariant_empty: "parent_invariant []"
  by (simp add: parent_invariant_def)

lemma example_run_unattached: "run_unattached example_ops [] = Some example_store"
  by (simp add: example_ops_def example_store_def Node_init_def attach_def new_cell_def
      Let_def)

text \<open>
  Claim C9, as amended. Every node structure built by constructor and \<^verbatim>\<open>append\<close> calls
  that pass a node only while it has no parent, or its parent is the receiver,
  satisfies the parent invariant, and each such \<^verbatim>\<open>append\<close> keeps it. \<^verbatim>\<open>append\<close> skips
  \<^verbatim>\<open>None\<close>, wraps strings into new nodes of that name, and adds the remaining
  arguments to the children in the order given, so the children grow by the number
  of arguments that are not \<^verbatim>\<open>None\<close>.
\<close>

theorem node_parent_invariant_unattached:
  "(run_unattached ops [] = Some h \<longrightarrow> run ops [] = Some h \<and> parent_invariant h)
   \<and> (parent_invariant h' \<longrightarrow> self < length h' \<longrightarrow>
        list_all (arg_unattached h' self) nodes \<longrightarrow>
        parent_invariant (append_node h' self nodes))
   \<and> (self < length h' \<longrightarrow> list_all (arg_ok (length h')) nodes \<longrightarrow>
        cell_children (append_node h' self nodes ! self)
          = cell_children (h' ! self) @ appended_addresses (length h') nodes
        \<and> length (cell_children (append_node h' self nodes ! self))
          = length (cell_children (h' ! self)) + length (filter (\<lambda>a. a \<noteq> ArgNone) nodes)
        \<and> map cell_name (drop (length h') (append_node h' self nodes)) = wrapped_names nodes)"
proof -
  have a: "run_unattached ops [] = Some h \<longrightarrow> run ops [] = Some h \<and> parent_invariant h"
    using run_unattached_invariant [OF parent_invariant_empty] by blast
  have b: "parent_invariant h' \<longrightarrow> self < length h' \<longrightarrow>
        list_all (arg_unattached h' self) nodes \<longrightarrow>
        parent_invariant (append_node h' self nodes)"
    using parent_invariant_append_node by blast
  have c: "self < length h' \<longrightarrow> list_all (arg_ok (length h')) nodes \<longrightarrow>
        cell_children (append_node h' self nodes ! self)
          = cell_children (h' ! self) @ appended_addresses (length h') nodes
        \<and> length (cell_children (append_node h' self nodes ! self))
          = length (cell_children (h' ! self)) + length (filter (\<lambda>a. a \<noteq> ArgNone) nodes)
        \<and> map cell_name (drop (length h') (append_node h' self nodes)) = wrapped_names nodes"
    by (simp add: children_append_node length_appended_addresses names_of_wrapped)
  from a b c show ?thesis by blast
qed

theorem node_parent_invariant_unattached_witness:
  "run_unattached example_ops [] = Some example_store
   \<and> run example_ops [] = Some example_store
   \<and> parent_invariant example_store
   \<and> list_all (arg_unattached example_store 1) [ArgStr ''e'', ArgNone, ArgNode 3]
   \<and> parent_invariant (append_node example_store 1 [ArgStr ''e'', ArgNone, ArgNode 3])
   \<and> cell_children (append_node example_store 1 [ArgStr ''e'', ArgNone, ArgNode 3] ! 1)
       = [0, 2, 3, 0, 4, 3]
   \<and> map cell_name (drop 4 (append_node example_store 1 [ArgStr ''e'', ArgNone, ArgNode 3]))
       = [''e'']"
proof -
  have s: "1 < length example_store" by (simp add: example_store_def)
  have f: "list_all (arg_unattached example_store 1) [ArgStr ''e'', ArgNone, ArgNode 3]"
    by (simp add: example_store_def eval_nat_numeral)
  have ok: "list_all (arg_ok (length example_store)) [ArgStr ''e'', ArgNone, ArgNode 3]"
    by (simp add: example_store_def)
  have ch: "cell_children (example_store ! 1)
        @ appended_addresses (length example_store) [ArgStr ''e'', ArgNone, ArgNode 3]
      = [0, 2, 3, 0, 4, 3]"
    by (simp add: example_store_def)
  from node_parent_invariant_unattached [of example_ops example_store example_store 1
      "[ArgStr ''e'', ArgNone, ArgNode 3]"] example_run_unattached s f ok ch
  show ?thesis by simp
qed

text \<open>
  Claim C9 as first stated, for every structure the two methods build, fails: a node
  appended under a second parent stays among the children of the first, whose link is
  then stale.
\<close>

theorem node_parent_invariant_counterexample:
  "run two_parents_ops [] = Some two_parents_store \<and> \<not> parent_invariant two_parents_store"
  by (simp add: two_parents_ops_def two_parents_store_def Node_init_def attach_def
      new_cell_def Let_def parent_invariant_def)

subsection \<open>Resolutions of the project\<close>

lemma set_set_update [simp]: "set (set_update s xs) = set s \<union> set xs"
  by (simp add: set_update_def)

lemma distinct_set_update [simp]: "distinct (set_update s xs)"
  by (simp add: set_update_def)

lemma sorted_desc: "distinct xs \<Longrightarrow> sorted_wrt (\<lambda>x y. x > y) (rev (sort xs))"
  for xs :: "rat list"
proof -
  assume "distinct xs"
  then have "sorted_wrt (<) (sort xs)"
    by (simp add: strict_sorted_iff)
  then show ?thesis by (simp add: sorted_wrt_rev)
qed

lemma update_fresh:
  "k \<notin> fst ` set al \<Longrightarrow> AList.update k v al = al @ [(k, v)]"
  by (induction al) auto

lemma fold_update_fresh:
  "distinct (map f xs) \<Longrightarrow> f ` set xs \<inter> fst ` set d = {} \<Longrightarrow>
   fold (\<lambda>x d. AList.update (f x) x d) xs d = d @ map (\<lambda>x. (f x, x)) xs"
proof (induction xs arbitrary: d)
  case Nil
  then show ?case by simp
next
  case (Cons x xs)
  from Cons.prems have fresh: "f x \<notin> fst ` set d" by auto
  have "fold (\<lambda>x d. AList.update (f x) x d) xs (d @ [(f x, x)])
      = (d @ [(f x, x)]) @ map (\<lambda>x. (f x, x)) xs"
    using Cons.prems by (intro Cons.IH) auto
  with fresh show ?case by (simp add: update_fresh)
qed

lemma base_layers_values:
  assumes "distinct (map layer_id layers)"
  shows "map snd (base_layers layers) = filter is_base_layer_for_publish layers"
proof -
  have "distinct (map layer_id (filter is_base_layer_for_publish layers))"
    using assms by (rule distinct_map_filter)
  then have "base_layers layers
      = map (\<lambda>x. (layer_id x, x)) (filter is_base_layer_for_publish layers)"
    unfolding base_layers_def by (subst fold_update_fresh) simp_all
  then show ?thesis by (simp add: comp_def)
qed

lemma wmsc_layer_resolutions_known:
  assumes "map_units code = Inr units"
  shows "\<exists>r. wmsc_layer_resolutions ext code layer = Inr r \<and>
           (case r of None \<Rightarrow> {} | Some rs \<Rightarrow> set rs) = visible_resolutions ext units layer"
proof (cases "resolutions_property layer")
  case None
  then show ?thesis by (simp add: wmsc_layer_resolutions_def visible_resolutions_def)
next
  case (Some raw)
  show ?thesis
  proof (cases "raw = []")
    case True
    with Some show ?thesis by (simp add: wmsc_layer_resolutions_def visible_resolutions_def)
  next
    case False
    with Some assms show ?thesis
      by (auto simp add: wmsc_layer_resolutions_def visible_resolutions_def Let_def
          filter_visible_resolutions_def scales_to_resolutions_def filter_empty_conv)
  qed
qed

lemma collect_known:
  assumes "map_units code = Inr units"
  shows "\<exists>tiles. collect_wmsc_resolutions ext code layers acc = Inr tiles \<and>
           set tiles = set acc \<union> (\<Union>layer \<in> set layers. visible_resolutions ext units layer) \<and>
           (distinct acc \<longrightarrow> distinct tiles)"
proof (induction layers arbitrary: acc)
  case Nil
  then show ?case by simp
next
  case (Cons layer layers)
  from wmsc_layer_resolutions_known [OF assms, of ext layer]
  obtain r where r: "wmsc_layer_resolutions ext code layer = Inr r"
    "(case r of None \<Rightarrow> {} | Some rs \<Rightarrow> set rs) = visible_resolutions ext units layer"
    by blast
  show ?case
  proof (cases r)
    case None
    with r Cons.IH [of acc] show ?thesis by auto
  next
    case (Some rs)
    show ?thesis
    proof (cases "rs = []")
      case True
      with Some r Cons.IH [of acc] show ?thesis by auto
    next
      case False
      with Some r Cons.IH [of "set_update acc rs"] show ?thesis by auto
    qed
  qed
qed


lemma parse_scales_Inr:
  "parse_scales int_of scales = Inr ns \<Longrightarrow>
   ns = List.map_filter (\<lambda>scale. int_of (last_field scale)) scales"
  by (induction scales arbitrary: ns)
    (auto simp add: List.map_filter_simps split: option.splits sum.splits)

lemma parse_scales_total:
  "\<forall>scale \<in> set scales. int_of (last_field scale) \<noteq> None \<Longrightarrow>
   \<exists>ns. parse_scales int_of scales = Inr ns"
  by (induction scales) auto

lemma set_rev_sort [simp]: "set (rev (sort xs)) = set xs" "distinct (rev (sort xs)) = distinct xs"
  by simp_all

lemma project_layers_resolutions_known:
  assumes units: "map_units (mapUnits st) = Inr units"
    and ids: "distinct (map layer_id (mapLayers st))"
  shows "\<exists>tiles. distinct tiles \<and> set tiles = wmsc_resolutions ext units st \<and>
     project_layers_resolutions ext st =
       (case scales_entry st of
          (scales, ok) \<Rightarrow>
            if ok \<and> scales \<noteq> [] then
              (case parse_scales (py_int ext) scales of
                 Inl e \<Rightarrow> Inl e
               | Inr parsed \<Rightarrow>
                   Inr (rev (sort (set_update tiles
                     (map (scale_to_resolution ext units)
                        (map of_int (rev (sort
                           (filter (\<lambda>scale. scale \<notin> resolution_to_scale ext units ` set tiles)
                              parsed)))))))))
            else Inr (rev (sort tiles)))"
proof -
  from collect_known [OF units, of ext "map snd (base_layers (mapLayers st))" "[]"]
  obtain tiles where t:
    "collect_wmsc_resolutions ext (mapUnits st) (map snd (base_layers (mapLayers st))) []
       = Inr tiles"
    "set tiles = (\<Union>layer \<in> set (map snd (base_layers (mapLayers st))).
                    visible_resolutions ext units layer)"
    "distinct tiles"
    by auto
  have "set tiles = wmsc_resolutions ext units st"
    unfolding t(2) base_layers_values [OF ids] wmsc_resolutions_def by simp
  moreover have "project_layers_resolutions ext st =
       (case scales_entry st of
          (scales, ok) \<Rightarrow>
            if ok \<and> scales \<noteq> [] then
              (case parse_scales (py_int ext) scales of
                 Inl e \<Rightarrow> Inl e
               | Inr parsed \<Rightarrow>
                   Inr (rev (sort (set_update tiles
                     (map (scale_to_resolution ext units)
                        (map of_int (rev (sort
                           (filter (\<lambda>scale. scale \<notin> resolution_to_scale ext units ` set tiles)
                              parsed)))))))))
            else Inr (rev (sort tiles)))"
    by (simp add: project_layers_resolutions_def t(1) resolutions_to_scales_known [OF units]
        scales_to_resolutions_known [OF units] Let_def
        split: prod.splits sum.splits)
  ultimately show ?thesis using t(3) by blast
qed

lemma project_layers_resolutions_units:
  assumes "project_layers_resolutions ext st = Inr rs"
  shows "\<exists>units. map_units (mapUnits st) = Inr units"
proof (cases "map_units (mapUnits st)")
  case (Inl e)
  then have "project_layers_resolutions ext st \<noteq> Inr rs"
    by (simp add: project_layers_resolutions_def resolutions_to_scales_def
        split: sum.splits)
  with assms show ?thesis by simp
next
  case (Inr units)
  then show ?thesis by simp
qed

lemma example_project_resolutions:
  "project_layers_resolutions example_ext example_project = Inr [16, 8, 4, 2, 1, 1 / 2]"
  by (simp add: project_layers_resolutions_def example_project_def example_ext_def
      base_layers_def wmsc_layer_resolutions_def filter_visible_resolutions_def
      scales_to_resolutions_def resolutions_to_scales_def map_units_def set_update_def
      last_field_def is_base_layer_for_publish_def roads_def osm_def dem_def ortho_def Let_def)

lemma project_layers_resolutions_cases:
  assumes ids: "distinct (map layer_id (mapLayers st))"
  shows "(\<forall>rs. project_layers_resolutions ext st = Inr rs \<longrightarrow>
            distinct rs \<and> sorted_wrt (\<lambda>x y. x > y) rs \<and>
            (\<exists>units. map_units (mapUnits st) = Inr units \<and>
               set rs = wmsc_resolutions ext units st \<union> stored_scale_resolutions ext units st))
       \<and> ((\<exists>units. map_units (mapUnits st) = Inr units) \<and>
          (snd (scales_entry st) \<longrightarrow>
             (\<forall>scale \<in> set (fst (scales_entry st)). py_int ext (last_field scale) \<noteq> None))
          \<longrightarrow> (\<exists>rs. project_layers_resolutions ext st = Inr rs))"
proof (intro conjI allI impI)
  fix rs assume res: "project_layers_resolutions ext st = Inr rs"
  from project_layers_resolutions_units [OF res]
  obtain units where units: "map_units (mapUnits st) = Inr units" by blast
  from project_layers_resolutions_known [OF units ids, of ext]
  obtain tiles where t: "distinct tiles" "set tiles = wmsc_resolutions ext units st"
    and eq: "project_layers_resolutions ext st =
       (case scales_entry st of
          (scales, ok) \<Rightarrow>
            if ok \<and> scales \<noteq> [] then
              (case parse_scales (py_int ext) scales of
                 Inl e \<Rightarrow> Inl e
               | Inr parsed \<Rightarrow>
                   Inr (rev (sort (set_update tiles
                     (map (scale_to_resolution ext units)
                        (map of_int (rev (sort
                           (filter (\<lambda>scale. scale \<notin> resolution_to_scale ext units ` set tiles)
                              parsed)))))))))
            else Inr (rev (sort tiles)))"
    by blast
  obtain scales ok where se: "scales_entry st = (scales, ok)" by (cases "scales_entry st")
  have main: "distinct rs \<and>
      set rs = wmsc_resolutions ext units st \<union> stored_scale_resolutions ext units st"
  proof (cases "ok \<and> scales \<noteq> []")
    case True
    with res eq se obtain parsed where p: "parse_scales (py_int ext) scales = Inr parsed"
      and rs: "rs = rev (sort (set_update tiles
                     (map (scale_to_resolution ext units)
                        (map of_int (rev (sort
                           (filter (\<lambda>scale. scale \<notin> resolution_to_scale ext units ` set tiles)
                              parsed)))))))"
      by (auto split: sum.splits)
    from parse_scales_Inr [OF p] True se
    have "stored_scales ext st = parsed" by (simp add: stored_scales_def)
    then have "stored_scale_resolutions ext units st
        = (\<lambda>scale. scale_to_resolution ext units (of_int scale)) `
            {scale \<in> set parsed. scale \<notin> resolution_to_scale ext units ` set tiles}"
      by (simp add: stored_scale_resolutions_def t(2))
    with rs t show ?thesis by (auto simp add: image_iff)
  next
    case False
    with res eq se have rs: "rs = rev (sort tiles)" by auto
    from False se have "stored_scales ext st = []"
      by (auto simp add: stored_scales_def List.map_filter_simps)
    then have "stored_scale_resolutions ext units st = {}"
      by (simp add: stored_scale_resolutions_def)
    with rs t show ?thesis by simp
  qed
  then show "distinct rs" by simp
  from main res eq se show "sorted_wrt (\<lambda>x y. x > y) rs"
    by (auto simp add: sorted_desc split: if_splits sum.splits)
  from main units show "\<exists>units. map_units (mapUnits st) = Inr units \<and>
      set rs = wmsc_resolutions ext units st \<union> stored_scale_resolutions ext units st"
    by blast
next
  assume a: "(\<exists>units. map_units (mapUnits st) = Inr units) \<and>
          (snd (scales_entry st) \<longrightarrow>
             (\<forall>scale \<in> set (fst (scales_entry st)). py_int ext (last_field scale) \<noteq> None))"
  then obtain units where units: "map_units (mapUnits st) = Inr units" by blast
  from project_layers_resolutions_known [OF units ids, of ext]
  obtain tiles where eq: "project_layers_resolutions ext st =
       (case scales_entry st of
          (scales, ok) \<Rightarrow>
            if ok \<and> scales \<noteq> [] then
              (case parse_scales (py_int ext) scales of
                 Inl e \<Rightarrow> Inl e
               | Inr parsed \<Rightarrow>
                   Inr (rev (sort (set_update tiles
                     (map (scale_to_resolution ext units)
                        (map of_int (rev (sort
                           (filter (\<lambda>scale. scale \<notin> resolution_to_scale ext units ` set tiles)
                              parsed)))))))))
            else Inr (rev (sort tiles)))"
    by blast
  obtain scales ok where se: "scales_entry st = (scales, ok)" by (cases "scales_entry st")
  show "\<exists>rs. project_layers_resolutions ext st = Inr rs"
  proof (cases "ok \<and> scales \<noteq> []")
    case True
    with a se have "\<forall>scale \<in> set scales. py_int ext (last_field scale) \<noteq> None" by simp
    from parse_scales_total [OF this] obtain ns
      where "parse_scales (py_int ext) scales = Inr ns" by blast
    with True se eq show ?thesis by simp
  next
    case False
    with se eq show ?thesis by auto
  qed
qed

text \<open>
  Claim C1, as amended. For every project state whose canvas unit code is known to
  \<^verbatim>\<open>map_units\<close> (0, 1, 2, 3 or 7) and whose stored scales each end in an integer,
  \<^verbatim>\<open>project_layers_resolutions\<close> returns a list without duplicates, in strictly
  descending order, that holds exactly the visible resolutions of the WMSC base layers
  of the project together with the resolutions of the stored scales, a stored scale
  being dropped when it is the scale of a WMSC resolution. Layer ids are distinct, as
  the keys of the host's layer dictionary are.
\<close>

theorem project_layers_resolutions_union:
  assumes ids: "distinct (map layer_id (mapLayers st))"
    and units: "map_units (mapUnits st) = Inr units"
    and ints: "snd (scales_entry st) \<longrightarrow>
      (\<forall>scale \<in> set (fst (scales_entry st)). py_int ext (last_field scale) \<noteq> None)"
  shows "\<exists>rs. project_layers_resolutions ext st = Inr rs
           \<and> distinct rs \<and> sorted_wrt (\<lambda>x y. x > y) rs
           \<and> set rs = wmsc_resolutions ext units st \<union> stored_scale_resolutions ext units st"
proof -
  from project_layers_resolutions_cases [OF ids, of ext] units ints
  obtain rs where rs: "project_layers_resolutions ext st = Inr rs" by blast
  with project_layers_resolutions_cases [OF ids, of ext]
  obtain units' where d: "distinct rs" and o: "sorted_wrt (\<lambda>x y. x > y) rs"
    and u: "map_units (mapUnits st) = Inr units'"
    and e: "set rs = wmsc_resolutions ext units' st \<union> stored_scale_resolutions ext units' st"
    by blast
  from u units have "units' = units" by simp
  with rs d o e show ?thesis by blast
qed

theorem project_layers_resolutions_union_witness:
  "distinct (map layer_id (mapLayers example_project))
   \<and> map_units (mapUnits example_project) = Inr ''meters''
   \<and> project_layers_resolutions example_ext example_project = Inr [16, 8, 4, 2, 1, 1 / 2]
   \<and> set [16, 8, 4, 2, 1, 1 / 2]
       = wmsc_resolutions example_ext ''meters'' example_project
         \<union> stored_scale_resolutions example_ext ''meters'' example_project"
proof -
  have ids: "distinct (map layer_id (mapLayers example_project))"
    by (simp add: example_project_def roads_def osm_def dem_def ortho_def)
  have units: "map_units (mapUnits example_project) = Inr ''meters''"
    by (simp add: example_project_def map_units_def)
  have ints: "snd (scales_entry example_project) \<longrightarrow>
      (\<forall>scale \<in> set (fst (scales_entry example_project)).
         py_int example_ext (last_field scale) \<noteq> None)"
    by (simp add: example_project_def example_ext_def last_field_def)
  from project_layers_resolutions_union [OF ids units ints] example_project_resolutions
  have "set [16, 8, 4, 2, 1, 1 / 2]
       = wmsc_resolutions example_ext ''meters'' example_project
         \<union> stored_scale_resolutions example_ext ''meters'' example_project"
    by auto
  with ids units example_project_resolutions show ?thesis by blast
qed

text \<open>
  Claim C1 as first stated, for every project state, fails: with a canvas unit code
  outside the dictionary of \<^verbatim>\<open>map_units\<close> the conversion of the collected resolutions
  raises \<^verbatim>\<open>KeyError\<close>, here for a project of one WMSC layer and no stored scales.
\<close>

theorem project_layers_resolutions_counterexample:
  "project_layers_resolutions example_ext
     \<lparr> mapLayers = [osm], mapUnits = 4, scales_entry = ([], False) \<rparr>
   = Inl KeyError"
  by (simp add: project_layers_resolutions_def base_layers_def wmsc_layer_resolutions_def
      resolutions_to_scales_def map_units_def set_update_def is_base_layer_for_publish_def
      osm_def example_ext_def Let_def)

subsection \<open>Metadata of the last publication\<close>

lemma pattern_match_Some_iff:
  "pattern_match base filename = Some d \<longleftrightarrow>
   length d = 10 \<and> list_all is_digit d \<and> (\<exists>rest. filename = base @ ''_'' @ d @ ''.meta'' @ rest)"
proof
  assume m: "pattern_match base filename = Some d"
  then have b: "take (length base) filename = base"
    by (simp add: pattern_match_def split: if_splits)
  from m b obtain c r where dr: "drop (length base) filename = c # r"
    by (cases "drop (length base) filename") (auto simp add: pattern_match_def)
  from m b dr have c: "c = CHR ''_''" and d: "d = take 10 r" and l: "length (take 10 r) = 10"
    and dig: "list_all is_digit (take 10 r)" and me: "take 5 (drop 10 r) = ''.meta''"
    by (auto simp add: pattern_match_def split: if_splits)
  have "filename = take (length base) filename @ drop (length base) filename" by simp
  also have "\<dots> = base @ c # r" using b dr by simp
  also have "r = take 10 r @ take 5 (drop 10 r) @ drop 5 (drop 10 r)"
    by (simp only: append_take_drop_id)
  finally have "filename = base @ ''_'' @ d @ ''.meta'' @ drop 5 (drop 10 r)"
    using c d me by simp
  with d l dig show "length d = 10 \<and> list_all is_digit d
      \<and> (\<exists>rest. filename = base @ ''_'' @ d @ ''.meta'' @ rest)"
    by blast
next
  assume "length d = 10 \<and> list_all is_digit d
      \<and> (\<exists>rest. filename = base @ ''_'' @ d @ ''.meta'' @ rest)"
  then obtain rest where "length d = 10" "list_all is_digit d"
    "filename = base @ ''_'' @ d @ ''.meta'' @ rest" by blast
  then show "pattern_match base filename = Some d"
    by (simp add: pattern_match_def)
qed






lemma metadata_timestamp_iff:
  "metadata_timestamp base f = Some t \<longleftrightarrow>
   (\<exists>digits rest. f = base @ ''_'' @ digits @ ''.meta'' @ rest \<and> length digits = 10
      \<and> list_all is_digit digits \<and> endswith f ''.meta'' \<and> t = int_of_digits digits)"
  by (auto simp add: metadata_timestamp_def pattern_match_Some_iff)











end
